theory Spec2Isabelle
  imports Complex_Main "HOL-Library.Sublist"
begin

section \<open>JavaScript numbers\<close>

text \<open>
  The TypeScript type \<open>number\<close> is modelled by \<^typ>\<open>real\<close>: every arithmetic
  operation is exact, and the non-finite values (NaN, the infinities) are not represented.
  Record fields carry a short prefix naming their interface (\<open>ti_\<close> for TrackInterval,
  \<open>in_\<close> for RaceEstimatorInput, ...), so that the parameter names of the source functions
  (\<open>tsb\<close>, \<open>nfi\<close>, \<open>distance\<close>, ...) stay free for the definitions.
\<close>

definition Math_round :: "real \<Rightarrow> real" where
  \<comment> \<open>\<open>Math.round\<close>: the nearest integer, a tie going towards plus infinity.\<close>
  "Math_round x = of_int \<lfloor>x + 1 / 2\<rfloor>"

definition toFixedInt :: "nat \<Rightarrow> real \<Rightarrow> int" where
  \<comment> \<open>The integer \<open>n\<close> of \<open>Number.prototype.toFixed\<close> for a non-negative \<open>x\<close>:
      \<open>n / 10^d\<close> is as close to \<open>x\<close> as possible, the larger \<open>n\<close> on a tie.\<close>
  "toFixedInt d x = \<lfloor>x * 10 ^ d + 1 / 2\<rfloor>"

definition toFixedNum :: "nat \<Rightarrow> real \<Rightarrow> real" where
  \<comment> \<open>\<open>parseFloat(x.toFixed(d))\<close>; \<open>toFixed\<close> rounds the magnitude and keeps the sign.
      (From \<open>10^21\<close> on \<open>toFixed\<close> prints the number itself, by then an integer.)\<close>
  "toFixedNum d x =
     (if x < 0 then - (of_int (toFixedInt d (- x)) / 10 ^ d)
      else of_int (toFixedInt d x) / 10 ^ d)"

section \<open>Readiness scoring (class SilverSprintLogic)\<close>

record HRVData =
  currentHRV :: real
  avgHRV7d :: real

datatype NFIStatus = Green | Amber | Red

definition calculateNFI :: "real \<Rightarrow> real \<Rightarrow> real" where
  "calculateNFI currentVmax avgVmax =
     (if avgVmax > 0 then toFixedNum 3 (currentVmax / avgVmax) else 1.0)"

definition calculateSRS :: "HRVData \<Rightarrow> real \<Rightarrow> real \<Rightarrow> real" where
  "calculateSRS hrv tsb nfi =
     (let hrvRatio = (if avgHRV7d hrv > 0 then currentHRV hrv / avgHRV7d hrv else 1.0);
          hrvScore = min 100 (max 0 ((hrvRatio - 0.75) / 0.30 * 100));
          tsbScore = min 100 (max 0 ((tsb + 20) / 40 * 100));
          nfiScore = min 100 (max 0 ((nfi - 0.90) / 0.10 * 100))
      in Math_round (hrvScore * 0.45 + tsbScore * 0.30 + nfiScore * 0.25))"

definition getNFIStatus :: "real \<Rightarrow> NFIStatus" where
  "getNFIStatus nfi = (if nfi > 0.97 then Green else if nfi \<ge> 0.94 then Amber else Red)"

definition calculateFreshnessAdjustedSRS :: "HRVData \<Rightarrow> real \<Rightarrow> real \<Rightarrow> real" where
  "calculateFreshnessAdjustedSRS hrv tsb nfi =
     (let nfiStatus = getNFIStatus nfi;
          isStale = ((nfiStatus = Red \<or> nfiStatus = Amber) \<and> tsb \<ge> 0)
      in calculateSRS hrv tsb (if isStale then 1.0 else nfi))"

section \<open>Sprint workouts: the stale-Vmax predicate\<close>

record SprintContext =
  ctx_tsb :: real

definition isStaleVmax :: "NFIStatus \<Rightarrow> SprintContext option \<Rightarrow> bool" where
  \<comment> \<open>The optional parameter \<open>context?\<close> is \<open>None\<close> when the caller leaves it out.\<close>
  "isStaleVmax nfiStatus context =
     (case context of
        None \<Rightarrow> False
      | Some c \<Rightarrow> (nfiStatus = Red \<or> nfiStatus = Amber) \<and> ctx_tsb c \<ge> 0)"

section \<open>Interval parser (class SprintParser)\<close>

datatype IntervalType = Acceleration | MaxVelocity | SpeedEndurance | SpecialEndurance

record TrackInterval =
  ti_type :: IntervalType
  ti_distance :: real
  ti_vMax :: real
  ti_duration :: real
  ti_flyingVelocity :: real

definition MOVING_THRESHOLD :: real where
  "MOVING_THRESHOLD = 1"

definition MIN_REP_DISTANCE :: real where
  "MIN_REP_DISTANCE = 10"

definition Math_max :: "real list \<Rightarrow> real" where
  \<comment> \<open>\<open>Math.max(...xs)\<close>. On no argument JavaScript returns minus infinity, which a real
      cannot hold; \<open>classifyBurst\<close> returns before it gets there with an empty burst.\<close>
  "Math_max xs = (case xs of [] \<Rightarrow> 0 | x # ys \<Rightarrow> fold max ys x)"

definition classifyType :: "real \<Rightarrow> IntervalType" where
  "classifyType distance =
     (if distance \<le> 40 then Acceleration
      else if distance \<le> 80 then MaxVelocity
      else if distance \<le> 150 then SpeedEndurance
      else SpecialEndurance)"

text \<open>
  The \<open>for\<close> loop of \<open>computeFlyingVelocity\<close>, from index \<open>i\<close> with the running
  \<open>bestAvg\<close>; \<open>burst.slice(i, i + windowSize)\<close> is \<open>take windowSize (drop i burst)\<close>.
\<close>

function flyingLoop :: "real list \<Rightarrow> nat \<Rightarrow> nat \<Rightarrow> real \<Rightarrow> real" where
  "flyingLoop burst windowSize i bestAvg =
     (if int i \<le> int (length burst) - int windowSize then
        (let windowAvg = sum_list (take windowSize (drop i burst)) / real windowSize
         in flyingLoop burst windowSize (Suc i)
              (if windowAvg > bestAvg then windowAvg else bestAvg))
      else bestAvg)"
  by pat_completeness auto
termination
  by (relation "measure (\<lambda>(burst, windowSize, i, bestAvg). Suc (length burst) - i)") auto

declare flyingLoop.simps [simp del]

definition computeFlyingVelocity :: "real list \<Rightarrow> real" where
  "computeFlyingVelocity burst =
     (if length burst = 0 then 0
      else if length burst \<le> 3 then sum_list burst / real (length burst)
      else toFixedNum 2 (flyingLoop burst (min 3 (length burst)) 0 0))"

definition classifyBurst :: "real list \<Rightarrow> TrackInterval option" where
  "classifyBurst burst =
     (let distance = sum_list burst
      in if distance < MIN_REP_DISTANCE then None
         else Some \<lparr>ti_type = classifyType distance,
                    ti_distance = Math_round distance,
                    ti_vMax = Math_max burst,
                    ti_duration = real (length burst),
                    ti_flyingVelocity = computeFlyingVelocity burst\<rparr>)"

text \<open>
  One turn of the loop of \<open>parseTrackSession\<close> on the sample \<open>v\<close>; the state is the
  pair of \<open>currentBurst\<close> and \<open>intervals\<close>. The loop runs once more after the last
  sample, with \<open>v = 0\<close>, which closes an open burst.
\<close>

definition parseStep ::
  "real \<Rightarrow> real list \<times> TrackInterval list \<Rightarrow> real list \<times> TrackInterval list" where
  "parseStep v st =
     (case st of (currentBurst, intervals) \<Rightarrow>
        if v \<ge> MOVING_THRESHOLD then (currentBurst @ [v], intervals)
        else if length currentBurst > 0 then
          (case classifyBurst currentBurst of
             Some interval \<Rightarrow> ([], intervals @ [interval])
           | None \<Rightarrow> ([], intervals))
        else (currentBurst, intervals))"

fun parseLoop :: "real list \<Rightarrow> real list \<times> TrackInterval list \<Rightarrow> TrackInterval list" where
  "parseLoop [] st = snd (parseStep 0 st)"
| "parseLoop (v # rest) st = parseLoop rest (parseStep v st)"

definition parseTrackSession :: "real list option \<Rightarrow> TrackInterval list" where
  \<comment> \<open>The argument is the field \<open>velocity_smooth\<close> of the activity, \<open>None\<close> when absent.\<close>
  "parseTrackSession velocity_smooth =
     (let stream = (case velocity_smooth of Some s \<Rightarrow> s | None \<Rightarrow> [])
      in parseLoop stream ([], []))"

text \<open>
  The flying velocity as the specification words it: the best arithmetic mean over the
  sliding windows of size \<open>min 3 (length burst)\<close>, rounded to two decimals.
\<close>

definition windowMeans :: "nat \<Rightarrow> real list \<Rightarrow> real list" where
  "windowMeans w xs =
     map (\<lambda>i. sum_list (take w (drop i xs)) / real w) [0 ..< Suc (length xs - w)]"

definition flyingVelocity_spec :: "real list \<Rightarrow> real" where
  "flyingVelocity_spec burst =
     toFixedNum 2 (Max (set (windowMeans (min 3 (length burst)) burst)))"

text \<open>
  An interval is emitted from a stream when it is the classification of a non-empty
  contiguous run of samples of the stream, all at or above the moving threshold.
\<close>

definition emitted :: "real list \<Rightarrow> TrackInterval \<Rightarrow> bool" where
  "emitted stream iv \<longleftrightarrow>
     (\<exists>burst. sublist burst stream \<and> burst \<noteq> [] \<and> (\<forall>v \<in> set burst. 1 \<le> v)
              \<and> classifyBurst burst = Some iv)"

section \<open>Number formatting\<close>

definition digitChar :: "nat \<Rightarrow> char" where
  "digitChar n = ''0123456789'' ! (n mod 10)"

fun decimal :: "nat \<Rightarrow> string" where
  "decimal n = (if n < 10 then [digitChar n] else decimal (n div 10) @ [digitChar n])"

declare decimal.simps [simp del]

primrec fractionDigits :: "nat \<Rightarrow> nat \<Rightarrow> string" where
  "fractionDigits 0 m = []"
| "fractionDigits (Suc d) m = fractionDigits d (m div 10) @ [digitChar m]"

definition toFixed :: "nat \<Rightarrow> real \<Rightarrow> string" where
  \<comment> \<open>\<open>x.toFixed(d)\<close> for a magnitude below \<open>10^21\<close>: the sign, the digits of the integer
      part and, when \<open>d > 0\<close>, a point and exactly \<open>d\<close> digits.\<close>
  "toFixed d x =
     (let n = nat (toFixedInt d \<bar>x\<bar>)
      in (if x < 0 then ''-'' else [])
         @ decimal (n div 10 ^ d)
         @ (if d = 0 then [] else ''.'' @ fractionDigits d (n mod 10 ^ d)))"

fun join :: "string \<Rightarrow> string list \<Rightarrow> string" where
  "join sep [] = []"
| "join sep [x] = x"
| "join sep (x # y # ys) = x @ sep @ join sep (y # ys)"

section \<open>Sprint workouts (class SprintWorkoutGenerator)\<close>

text \<open>
  The string literals of the source are kept, with their characters outside ASCII
  written in ASCII: the em dash as \<open>--\<close>, the en dash as \<open>-\<close>, the multiplication
  sign as \<open>x\<close>, the bullet as \<open>*\<close>, the arrow as \<open>->\<close>; the pictographs in front of
  the headline and of the status labels are left out.
\<close>

record SprintBlock =
  sb_name :: string
  sb_reps :: nat
  sb_distance :: string
  sb_rest :: string
  sb_intensity :: string
  sb_cue :: string

record SprintWorkout =
  sw_name :: string
  sw_status :: NFIStatus
  sw_rationale :: string
  sw_warmup :: "string list"
  sw_mainSet :: "SprintBlock list"
  sw_cooldown :: "string list"
  sw_totalSprintVolume :: string
  sw_workoutDescription :: string

definition formatDescription ::
  "NFIStatus \<Rightarrow> real \<Rightarrow> string list \<Rightarrow> SprintBlock list \<Rightarrow> string list \<Rightarrow> string \<Rightarrow> string" where
  "formatDescription status nfi warmup mainSet cooldown volume =
     (let statusLabel = (if status = Green then ''GREEN''
                         else if status = Amber then ''AMBER'' else ''RED'');
          lines =
            [''SilverSprint Recommended Session'',
             ''Status: '' @ statusLabel @ '' (NFI: '' @ toFixed 1 (nfi * 100) @ ''%)'',
             [],
             ''WARM-UP'']
            @ map (\<lambda>w. ''* '' @ w) warmup
            @ [[], ''MAIN SET'']
            @ map (\<lambda>b. ''* '' @ decimal (sb_reps b) @ ''x '' @ sb_name b @ '' -- ''
                        @ sb_distance b @ '' @ '' @ sb_intensity b @ '' | Rest: '' @ sb_rest b
                        @ [CHR 0x0A] @ ''  -> '' @ sb_cue b) mainSet
            @ [[], ''COOL-DOWN'']
            @ map (\<lambda>c. ''* '' @ c) cooldown
            @ [[], ''Total Sprint Volume: '' @ volume]
      in join [CHR 0x0A] lines)"

definition greenWorkout :: "real \<Rightarrow> SprintWorkout" where
  "greenWorkout nfi =
     (let warmup = [''10 min easy jog'',
                    ''Dynamic stretching circuit (leg swings, walking lunges, high knees)'',
                    ''3 x 60m progressive build-ups (60%, 75%, 90%)''];
          mainSet = [\<lparr>sb_name = ''Block Starts'', sb_reps = 3,
                       sb_distance = ''30m'',
                       sb_rest = ''3-4 min walk'',
                       sb_intensity = ''100%'',
                       sb_cue = ''Explosive first step, drive for 15m then transition to upright.''\<rparr>,
                     \<lparr>sb_name = ''Flying 30s'', sb_reps = 3,
                       sb_distance = ''30m (20m run-in)'',
                       sb_rest = ''4 min walk-back'',
                       sb_intensity = ''100%'',
                       sb_cue = ''Hit top speed in the run-in zone, maintain mechanics through the timing gates.''\<rparr>,
                     \<lparr>sb_name = ''Full 60m'', sb_reps = 2,
                       sb_distance = ''60m from blocks'',
                       sb_rest = ''5-6 min full recovery'',
                       sb_intensity = ''95-100%'',
                       sb_cue = ''Aggressive drive phase, upright by 30m, hold form to the line.''\<rparr>];
          cooldown = [''10 min easy jog'',
                      ''Static stretching -- hamstrings, hip flexors, calves (30s holds)'']
      in \<lparr>sw_name = ''Max Velocity -- Neural Priming Session'',
          sw_status = Green,
          sw_rationale = ''NFI at '' @ toFixed 1 (nfi * 100)
              @ ''% -- CNS is fully primed. Today is a day for maximal speed work with full recovery between reps.'',
          sw_warmup = warmup,
          sw_mainSet = mainSet,
          sw_cooldown = cooldown,
          sw_totalSprintVolume = ''~300m total sprint distance'',
          sw_workoutDescription = formatDescription Green nfi warmup mainSet cooldown ''~300m''\<rparr>)"

definition amberWorkout :: "real \<Rightarrow> SprintWorkout" where
  "amberWorkout nfi =
     (let warmup = [''10 min easy jog'',
                    ''Dynamic stretching circuit'',
                    ''2 x 60m build-ups (60%, 80%)''];
          mainSet = [\<lparr>sb_name = ''Wicket Runs'', sb_reps = 4,
                       sb_distance = ''20m (mini-hurdle spacing)'',
                       sb_rest = ''2 min walk-back'',
                       sb_intensity = ''Controlled'',
                       sb_cue = ''Focus on cadence and front-side mechanics. Smooth, not forced.''\<rparr>,
                     \<lparr>sb_name = ''Short Accelerations'', sb_reps = 3,
                       sb_distance = ''20m from 3-point stance'',
                       sb_rest = ''3 min walk'',
                       sb_intensity = ''90%'',
                       sb_cue = ''Clean lines -- shin angle, arm drive, no over-striding.''\<rparr>,
                     \<lparr>sb_name = ''A-Skip + B-Skip Complex'', sb_reps = 3,
                       sb_distance = ''30m each drill'',
                       sb_rest = ''90s walk-back'',
                       sb_intensity = ''Technical'',
                       sb_cue = ''Tall posture, active ground contact, rhythmic tempo.''\<rparr>];
          cooldown = [''10 min easy jog'',
                      ''Light stretching + foam roll'']
      in \<lparr>sw_name = ''Technical Sprint -- CNS Management Session'',
          sw_status = Amber,
          sw_rationale = ''NFI at '' @ toFixed 1 (nfi * 100)
              @ ''% -- moderate CNS suppression. Focus on technical quality with reduced intensity. Keep total volume low.'',
          sw_warmup = warmup,
          sw_mainSet = mainSet,
          sw_cooldown = cooldown,
          sw_totalSprintVolume = ''~150m sprint equivalent'',
          sw_workoutDescription = formatDescription Amber nfi warmup mainSet cooldown ''~150m''\<rparr>)"

definition redWorkout :: "real \<Rightarrow> SprintWorkout" where
  "redWorkout nfi =
     (let warmup = [''5 min easy walk''];
          mainSet = [\<lparr>sb_name = ''Active Recovery Walk'', sb_reps = 1,
                       sb_distance = ''15-20 min'',
                       sb_rest = ''N/A'',
                       sb_intensity = ''Very Low'',
                       sb_cue = ''Easy pace, focus on breathing and relaxation.''\<rparr>,
                     \<lparr>sb_name = ''Dynamic Mobility Circuit'', sb_reps = 2,
                       sb_distance = ''10 min total'',
                       sb_rest = ''Continuous'',
                       sb_intensity = ''Low'',
                       sb_cue = ''Leg swings, hip circles, ankle mobilization. No ballistic movements.''\<rparr>];
          cooldown = [''Foam rolling -- quads, hamstrings, glutes (10 min)'',
                      ''Gentle static stretching (optional)'']
      in \<lparr>sw_name = ''Recovery -- Neural Restoration'',
          sw_status = Red,
          sw_rationale = ''NFI at '' @ toFixed 1 (nfi * 100)
              @ ''% -- significant neural fatigue detected. No sprinting today. Focus on recovery to restore CNS readiness.'',
          sw_warmup = warmup,
          sw_mainSet = mainSet,
          sw_cooldown = cooldown,
          sw_totalSprintVolume = ''0m sprint distance'',
          sw_workoutDescription = formatDescription Red nfi warmup mainSet cooldown ''0m''\<rparr>)"

definition reactivationWorkout :: "real \<Rightarrow> real \<Rightarrow> SprintWorkout" where
  "reactivationWorkout nfi tsb =
     (let warmup = [''10 min easy jog'',
                    ''Dynamic stretching circuit (leg swings, walking lunges, high knees)'',
                    ''4 x 60m progressive build-ups (50%, 65%, 80%, 90%)''];
          mainSet = [\<lparr>sb_name = ''Standing Accelerations'', sb_reps = 3,
                       sb_distance = ''30m'',
                       sb_rest = ''3 min walk-back'',
                       sb_intensity = ''90-95%'',
                       sb_cue = ''Smooth acceleration. Focus on shin angles and arm drive -- no straining.''\<rparr>,
                     \<lparr>sb_name = ''Flying 20s'', sb_reps = 3,
                       sb_distance = ''20m (15m run-in)'',
                       sb_rest = ''3 min walk-back'',
                       sb_intensity = ''93-97%'',
                       sb_cue = ''Re-engage top-speed neural pathways. Relaxed face, fast feet, tall hips.''\<rparr>,
                     \<lparr>sb_name = ''Wicket Runs'', sb_reps = 3,
                       sb_distance = ''20m (mini-hurdle spacing)'',
                       sb_rest = ''2 min walk-back'',
                       sb_intensity = ''Controlled'',
                       sb_cue = ''Cadence and front-side mechanics. Reinforce stride pattern.''\<rparr>];
          cooldown = [''10 min easy jog'',
                      ''Static stretching -- hamstrings, hip flexors, calves (30s holds)'']
      in \<lparr>sw_name = ''Neural Re-Activation -- Restore Sprint Speed'',
          sw_status = Red,
          sw_rationale = ''NFI at '' @ toFixed 1 (nfi * 100) @ ''% but TSB is '' @ (if tsb > 0 then ''+'' else '''')
              @ toFixed 1 tsb @ '' (fresh). Low Vmax is likely from detraining, not fatigue. This controlled re-activation session will restore neuromuscular coordination.'',
          sw_warmup = warmup,
          sw_mainSet = mainSet,
          sw_cooldown = cooldown,
          sw_totalSprintVolume = ''~150m sprint distance'',
          sw_workoutDescription = formatDescription Red nfi warmup mainSet cooldown ''~150m''\<rparr>)"

text \<open>
  \<open>generate\<close> reads \<open>context!.tsb\<close> only after \<open>isStaleVmax\<close> has returned true, which it
  never does on an absent context: the first branch is entered with \<open>Some c\<close> only.
\<close>

definition generate :: "NFIStatus \<Rightarrow> real \<Rightarrow> SprintContext option \<Rightarrow> SprintWorkout" where
  "generate nfiStatus nfi context =
     (if isStaleVmax nfiStatus context then
        (case context of Some c \<Rightarrow> reactivationWorkout nfi (ctx_tsb c))
      else (case nfiStatus of
              Green \<Rightarrow> greenWorkout nfi
            | Amber \<Rightarrow> amberWorkout nfi
            | Red \<Rightarrow> redWorkout nfi))"

section \<open>Race time estimator (class RaceEstimator)\<close>

definition AGE_DEGRADATION_PER_YEAR :: real where
  "AGE_DEGRADATION_PER_YEAR = 0.007"

datatype Distance = D100 | D200 | D400

fun metres :: "Distance \<Rightarrow> real" where
  \<comment> \<open>The number behind a value of the type \<open>100 | 200 | 400\<close>.\<close>
  "metres D100 = 100"
| "metres D200 = 200"
| "metres D400 = 400"

datatype Confidence = High | Moderate | Low

record RacePhaseBreakdown =
  ph_reaction :: real
  ph_acceleration :: real
  ph_maxVelocity :: real
  ph_deceleration :: real

text \<open>
  \<open>RaceEstimate\<close> without its field \<open>note\<close>: the note is free text that embeds numbers
  through JavaScript's general number-to-string conversion, and nothing else reads it.
\<close>

record RaceEstimate =
  re_distance :: Distance
  re_predictedTime :: real
  re_display :: string
  re_confidence :: Confidence
  re_phases :: RacePhaseBreakdown

record TrainingProfile =
  tp_speedEnduranceIndex :: real
  tp_bestFlyingVelocity :: real
  tp_avgAccelerationTime :: real
  tp_seIntervalCount :: nat
  tp_accelIntervalCount :: nat

record RaceEstimatorInput =
  in_bestVmax60d :: real
  in_avgVmax :: real
  in_nfi :: real
  in_nfiStatus :: NFIStatus
  in_tsb :: real
  in_age :: real
  in_activityCount :: nat
  in_trainingIntervals :: "TrackInterval list option"

definition REACTION_TIME :: real where
  "REACTION_TIME = 0.15"

fun BASE_SPEED_SUSTAIN :: "Distance \<Rightarrow> real" where
  "BASE_SPEED_SUSTAIN D100 = 0.91"
| "BASE_SPEED_SUSTAIN D200 = 0.88"
| "BASE_SPEED_SUSTAIN D400 = 0.78"

text \<open>
  In \<open>buildTrainingProfile\<close> the quotient \<open>distance / duration\<close> of an interval of
  duration 0 is infinite or NaN in JavaScript and 0 here; the intervals of the parser
  have a duration of at least 1.
\<close>

definition buildTrainingProfile :: "TrackInterval list \<Rightarrow> real \<Rightarrow> TrainingProfile" where
  "buildTrainingProfile intervals peakVmax =
     (let seIntervals =
            filter (\<lambda>i. ti_type i = SpeedEndurance \<or> ti_type i = SpecialEndurance) intervals;
          speedEnduranceIndex =
            (if length seIntervals > 0 \<and> peakVmax > 0 then
               (let ratios = map (\<lambda>i. let avgSpeed = ti_distance i / ti_duration i
                                       in avgSpeed / peakVmax) seIntervals
                in sum_list ratios / real (length ratios))
             else 0);
          flyingVelocities =
            map ti_flyingVelocity (filter (\<lambda>i. ti_flyingVelocity i > 0) intervals);
          bestFlyingVelocity =
            (if length flyingVelocities > 0 then Math_max flyingVelocities else 0);
          accelIntervals = filter (\<lambda>i. ti_type i = Acceleration) intervals;
          avgAccelerationTime =
            (if length accelIntervals > 0 then
               (let accelTimes = map ti_duration accelIntervals
                in sum_list accelTimes / real (length accelTimes))
             else 0)
      in \<lparr>tp_speedEnduranceIndex = speedEnduranceIndex,
          tp_bestFlyingVelocity = bestFlyingVelocity,
          tp_avgAccelerationTime = avgAccelerationTime,
          tp_seIntervalCount = length seIntervals,
          tp_accelIntervalCount = length accelIntervals\<rparr>)"

definition getDynamicSustainFractions :: "TrainingProfile option \<Rightarrow> Distance \<Rightarrow> real" where
  "getDynamicSustainFractions profile =
     (let base = BASE_SPEED_SUSTAIN
      in case profile of
           None \<Rightarrow> base
         | Some p \<Rightarrow>
             (let base1 =
                    (if tp_seIntervalCount p \<ge> 2 \<and> tp_speedEnduranceIndex p > 0 then
                       (let seDeviation = tp_speedEnduranceIndex p - 0.85
                        in base(D200 := max 0.82 (min 0.93 (base D200 + seDeviation * 0.5)),
                                D400 := max 0.70 (min 0.85 (base D400 + seDeviation * 0.7))))
                     else base);
                  base2 =
                    (if tp_accelIntervalCount p \<ge> 3 \<and> tp_avgAccelerationTime p > 0 then
                       (if tp_avgAccelerationTime p < 4.5 then
                          (let bonus = (4.5 - tp_avgAccelerationTime p) * 0.01
                           in base1(D100 := min 0.95 (base1 D100 + bonus)))
                        else base1)
                     else base1)
              in base2))"

definition getReadinessModifier :: "real \<Rightarrow> real \<Rightarrow> real" where
  "getReadinessModifier nfi tsb =
     (let mod0 = 1.0 + (nfi - 1.0) * 0.33;
          mod1 = (if tsb > 5 then mod0 + min (tsb * 0.001) 0.01
                  else if tsb < - 10 then mod0 + max (tsb * 0.0005) (- 0.015)
                  else mod0)
      in max 0.95 (min 1.03 mod1))"

definition computePhaseBreakdown ::
  "Distance \<Rightarrow> real \<Rightarrow> real \<Rightarrow> TrainingProfile option \<Rightarrow> RacePhaseBreakdown" where
  "computePhaseBreakdown distance effectiveVmax avgSpeed profile =
     (let reaction = REACTION_TIME;
          totalRunTime = metres distance / avgSpeed;
          accelDistance = (if metres distance \<le> 100 then 30
                           else if metres distance \<le> 200 then 40 else 50 :: real);
          accelAvgSpeed = effectiveVmax * 0.55;
          accelerationTime0 = accelDistance / accelAvgSpeed;
          accelerationTime =
            (case profile of
               None \<Rightarrow> accelerationTime0
             | Some p \<Rightarrow>
                 if tp_accelIntervalCount p \<ge> 2 \<and> tp_avgAccelerationTime p > 0
                 then tp_avgAccelerationTime p * (accelDistance / 30)
                 else accelerationTime0);
          maxVelDistance =
            (if metres distance \<le> 100 then metres distance - accelDistance
             else if metres distance \<le> 200 then min 60 (metres distance - accelDistance)
             else min 50 (metres distance - accelDistance));
          maxVelocityTime = maxVelDistance / effectiveVmax;
          decelTime = max 0 (totalRunTime - accelerationTime - maxVelocityTime)
      in \<lparr>ph_reaction = toFixedNum 2 reaction,
          ph_acceleration = toFixedNum 2 accelerationTime,
          ph_maxVelocity = toFixedNum 2 maxVelocityTime,
          ph_deceleration = toFixedNum 2 decelTime\<rparr>)"

definition getConfidence :: "RaceEstimatorInput \<Rightarrow> TrainingProfile option \<Rightarrow> Confidence" where
  "getConfidence input profile =
     (let hasGoodHistory =
            (case profile of
               None \<Rightarrow> False
             | Some p \<Rightarrow> tp_seIntervalCount p \<ge> 2 \<and> tp_accelIntervalCount p \<ge> 2)
      in if in_activityCount input \<ge> 10 \<and> in_bestVmax60d input > 0 \<and> hasGoodHistory then High
         else if in_activityCount input \<ge> 10 \<and> in_bestVmax60d input > 0 then High
         else if in_activityCount input \<ge> 3 then Moderate
         else Low)"

definition formatTime :: "real \<Rightarrow> string" where
  "formatTime seconds =
     (if seconds \<le> 0 then ''--''
      else if seconds < 60 then toFixed 2 seconds
      else (let mins = \<lfloor>seconds / 60\<rfloor>;
                secs = seconds - of_int mins * 60
            in decimal (nat mins) @ '':'' @ (if secs < 10 then ''0'' else []) @ toFixed 2 secs))"

text \<open>
  In \<open>estimateDistance\<close> the quotient \<open>distance / avgSpeed\<close> is exact. In JavaScript it
  overflows to infinity once \<open>avgSpeed\<close> falls below about \<open>2.2e-306\<close>, which a real
  cannot hold; what is proved of the order of the predicted times assumes a peak velocity
  of at least 0.001 m/s, where the quotient is at most 2313500.
\<close>

definition estimateDistance :: "Distance \<Rightarrow> RaceEstimatorInput \<Rightarrow> RaceEstimate" where
  "estimateDistance distance input =
     (let peakVmax = max (in_bestVmax60d input) (in_avgVmax input)
      in if peakVmax \<le> 0 then
           \<lparr>re_distance = distance,
            re_predictedTime = 0,
            re_display = ''--'',
            re_confidence = Low,
            re_phases = \<lparr>ph_reaction = 0, ph_acceleration = 0, ph_maxVelocity = 0,
                          ph_deceleration = 0\<rparr>\<rparr>
         else
           (let profile =
                  (case in_trainingIntervals input of
                     None \<Rightarrow> None
                   | Some intervals \<Rightarrow>
                       if length intervals > 0
                       then Some (buildTrainingProfile intervals peakVmax) else None);
                sustainFractions = getDynamicSustainFractions profile;
                sustainFraction = sustainFractions distance;
                effectiveVmax =
                  (case profile of
                     None \<Rightarrow> peakVmax
                   | Some p \<Rightarrow>
                       if tp_bestFlyingVelocity p > 0
                       then min (tp_bestFlyingVelocity p * 0.6 + peakVmax * 0.4) (peakVmax * 1.02)
                       else peakVmax);
                avgSpeed0 = effectiveVmax * sustainFraction;
                agePenalty = (if in_age input > 35
                              then 1 - (in_age input - 35) * AGE_DEGRADATION_PER_YEAR else 1);
                avgSpeed1 = avgSpeed0 * max agePenalty 0.65;
                readinessModifier = getReadinessModifier (in_nfi input) (in_tsb input);
                avgSpeed = avgSpeed1 * readinessModifier;
                rawTime = metres distance / avgSpeed + REACTION_TIME;
                predictedTime = toFixedNum 2 rawTime;
                confidence = getConfidence input profile;
                phases = computePhaseBreakdown distance effectiveVmax avgSpeed profile
            in \<lparr>re_distance = distance,
                re_predictedTime = predictedTime,
                re_display = formatTime predictedTime,
                re_confidence = confidence,
                re_phases = phases\<rparr>))"

definition estimate :: "RaceEstimatorInput \<Rightarrow> RaceEstimate list" where
  "estimate input = (let distances = [D100, D200, D400]
                     in map (\<lambda>d. estimateDistance d input) distances)"

section \<open>Rounding lemmas\<close>

lemma Math_round_mono: "x \<le> y \<Longrightarrow> Math_round x \<le> Math_round y"
  unfolding Math_round_def by (simp add: floor_mono)

lemma Math_round_int: "Math_round x \<in> \<int>"
  unfolding Math_round_def by simp

lemma Math_round_bounds:
  assumes "0 \<le> x" and "x \<le> 100"
  shows "0 \<le> Math_round x \<and> Math_round x \<le> 100"
proof -
  have "(0::int) \<le> \<lfloor>x + 1 / 2\<rfloor>" using assms(1) by simp
  moreover have "\<lfloor>x + 1 / 2\<rfloor> \<le> (100::int)"
  proof -
    have "x + 1 / 2 < of_int (101::int)" using assms(2) by simp
    then have "\<lfloor>x + 1 / 2\<rfloor> < (101::int)" by (simp only: floor_less_iff)
    then show ?thesis by simp
  qed
  ultimately show ?thesis
    unfolding Math_round_def by (metis of_int_0_le_iff of_int_le_iff of_int_numeral)
qed

lemma toFixedInt_near:
  assumes "0 \<le> x"
  shows "\<bar>of_int (toFixedInt d x) / 10 ^ d - x\<bar> \<le> 1 / (2 * 10 ^ d)"
proof -
  let ?p = "(10::real) ^ d"
  have p: "0 < ?p" by simp
  have lo: "of_int (toFixedInt d x) \<le> x * ?p + 1 / 2"
    unfolding toFixedInt_def by (rule of_int_floor_le)
  have hi: "x * ?p + 1 / 2 < of_int (toFixedInt d x) + 1"
    unfolding toFixedInt_def by linarith
  have "\<bar>of_int (toFixedInt d x) - x * ?p\<bar> \<le> 1 / 2" using lo hi by linarith
  then have "\<bar>of_int (toFixedInt d x) - x * ?p\<bar> / ?p \<le> (1 / 2) / ?p"
    using p by (intro divide_right_mono) simp_all
  moreover have "\<bar>of_int (toFixedInt d x) - x * ?p\<bar> / ?p = \<bar>of_int (toFixedInt d x) / ?p - x\<bar>"
  proof -
    have "of_int (toFixedInt d x) / ?p - x = (of_int (toFixedInt d x) - x * ?p) / ?p"
      using p by (simp add: field_simps)
    then show ?thesis using p by simp
  qed
  ultimately show ?thesis by simp
qed

lemma toFixedNum_near: "\<bar>toFixedNum d x - x\<bar> \<le> 1 / (2 * 10 ^ d)"
proof (cases "x < 0")
  case True
  then have "0 \<le> - x" by simp
  from toFixedInt_near [OF this, of d] show ?thesis
    using True unfolding toFixedNum_def by (simp add: abs_if split: if_splits)
next
  case False
  then have "0 \<le> x" by simp
  from toFixedInt_near [OF this, of d] show ?thesis
    using False unfolding toFixedNum_def by simp
qed

lemma toFixedNum_grid: "toFixedNum d x * 10 ^ d \<in> \<int>"
  unfolding toFixedNum_def by simp


lemma toFixedNum_strict:
  assumes "0 \<le> x" and "x + 1 / 10 ^ d \<le> y"
  shows "toFixedNum d x < toFixedNum d y"
proof -
  have p: "(0::real) < 10 ^ d" by simp
  have "(x + 1 / 10 ^ d) * 10 ^ d \<le> y * 10 ^ d"
    using assms(2) p by (intro mult_right_mono) simp_all
  moreover have "(x + 1 / 10 ^ d) * 10 ^ d = x * 10 ^ d + 1"
    using p by (simp add: distrib_right)
  ultimately have "(x * 10 ^ d + 1 / 2) + 1 \<le> y * 10 ^ d + 1 / 2"
    by simp
  then have "\<lfloor>x * 10 ^ d + 1 / 2\<rfloor> + 1 \<le> \<lfloor>y * 10 ^ d + 1 / 2\<rfloor>" by linarith
  then have "toFixedInt d x < toFixedInt d y" unfolding toFixedInt_def by simp
  then have "(of_int (toFixedInt d x) :: real) < of_int (toFixedInt d y)" by simp
  then have "(of_int (toFixedInt d x) :: real) / 10 ^ d < of_int (toFixedInt d y) / 10 ^ d"
    using p by (simp add: divide_strict_right_mono)
  moreover have "0 \<le> 1 / (10::real) ^ d" by simp
  then have "0 \<le> y" using assms by linarith
  ultimately show ?thesis using assms(1) by (simp add: toFixedNum_def)
qed

section \<open>Readiness scoring: properties\<close>

lemma srs_arg_bounds:
  fixes a b c :: real
  assumes "0 \<le> a" "a \<le> 100" "0 \<le> b" "b \<le> 100" "0 \<le> c" "c \<le> 100"
  shows "0 \<le> a * 0.45 + b * 0.30 + c * 0.25 \<and> a * 0.45 + b * 0.30 + c * 0.25 \<le> 100"
  using assms by simp

text \<open>
  Claim C1. For every HRV pair, every training stress balance and every fatigue index,
  the score returned by \<open>calculateSRS\<close> is an integer between 0 and 100; with an HRV
  ratio of 1.0 (\<open>currentHRV = avgHRV7d > 0\<close>), a balance of 20 and a fatigue index of 1.0
  it is exactly 93.
\<close>

theorem calculateSRS_range:
  "calculateSRS hrv tsb nfi \<in> \<int>
   \<and> 0 \<le> calculateSRS hrv tsb nfi \<and> calculateSRS hrv tsb nfi \<le> 100
   \<and> (avgHRV7d hrv > 0 \<and> currentHRV hrv = avgHRV7d hrv \<longrightarrow> calculateSRS hrv 20 1.0 = 93)"
proof -
  have r: "0 \<le> calculateSRS hrv tsb nfi \<and> calculateSRS hrv tsb nfi \<le> 100"
    unfolding calculateSRS_def Let_def
    by (rule Math_round_bounds;
        rule srs_arg_bounds [THEN conjunct1] srs_arg_bounds [THEN conjunct2]; simp)
  have i: "calculateSRS hrv tsb nfi \<in> \<int>"
    unfolding calculateSRS_def Let_def by (rule Math_round_int)
  have e: "avgHRV7d hrv > 0 \<and> currentHRV hrv = avgHRV7d hrv \<longrightarrow> calculateSRS hrv 20 1.0 = 93"
    by (simp add: calculateSRS_def Math_round_def)
  from r i e show ?thesis by blast
qed

theorem calculateSRS_range_witness:
  "avgHRV7d \<lparr>currentHRV = 50, avgHRV7d = 50\<rparr> > 0
   \<and> currentHRV \<lparr>currentHRV = 50, avgHRV7d = 50\<rparr> = avgHRV7d \<lparr>currentHRV = 50, avgHRV7d = 50\<rparr>
   \<and> calculateSRS \<lparr>currentHRV = 50, avgHRV7d = 50\<rparr> 20 1.0 = 93"
  using calculateSRS_range [of "\<lparr>currentHRV = 50, avgHRV7d = 50\<rparr>" 0 0] by simp

text \<open>
  Claim C2. The stale-signal predicate \<open>isStaleVmax\<close> is true exactly when the status
  band is amber or red and the supplied training stress balance is at least 0; with no
  context supplied it is false for every status band. The test that
  \<open>calculateFreshnessAdjustedSRS\<close> writes out for itself is the same predicate, on the
  band of the fatigue index and the balance it is given.
\<close>

theorem isStaleVmax_iff:
  "(isStaleVmax nfiStatus (Some c) \<longleftrightarrow> (nfiStatus = Amber \<or> nfiStatus = Red) \<and> ctx_tsb c \<ge> 0)
   \<and> \<not> isStaleVmax nfiStatus None
   \<and> calculateFreshnessAdjustedSRS hrv tsb nfi =
       calculateSRS hrv tsb
         (if isStaleVmax (getNFIStatus nfi) (Some \<lparr>ctx_tsb = tsb\<rparr>) then 1.0 else nfi)"
  by (auto simp: isStaleVmax_def calculateFreshnessAdjustedSRS_def Let_def)

theorem isStaleVmax_iff_witness:
  "isStaleVmax Red (Some \<lparr>ctx_tsb = 5\<rparr>) \<and> \<not> isStaleVmax Red (Some \<lparr>ctx_tsb = - 10\<rparr>)
   \<and> \<not> isStaleVmax Green (Some \<lparr>ctx_tsb = 10\<rparr>) \<and> \<not> isStaleVmax Red None"
  using isStaleVmax_iff [of Red "\<lparr>ctx_tsb = 5\<rparr>"] isStaleVmax_iff [of Red "\<lparr>ctx_tsb = - 10\<rparr>"]
    isStaleVmax_iff [of Green "\<lparr>ctx_tsb = 10\<rparr>"]
  by simp

text \<open>
  Claim C3. \<open>getNFIStatus\<close> returns green exactly when the fatigue index is above 0.97,
  amber exactly when it lies in the closed interval from 0.94 to 0.97 (both boundary
  values are amber), and red exactly when it is below 0.94.
\<close>

theorem getNFIStatus_bands:
  "(getNFIStatus nfi = Green \<longleftrightarrow> nfi > 0.97)
   \<and> (getNFIStatus nfi = Amber \<longleftrightarrow> 0.94 \<le> nfi \<and> nfi \<le> 0.97)
   \<and> (getNFIStatus nfi = Red \<longleftrightarrow> nfi < 0.94)
   \<and> getNFIStatus 0.94 = Amber \<and> getNFIStatus 0.97 = Amber"
  by (auto simp: getNFIStatus_def)

theorem getNFIStatus_bands_witness:
  "getNFIStatus 0.971 = Green \<and> getNFIStatus 0.97 = Amber
   \<and> getNFIStatus 0.94 = Amber \<and> getNFIStatus 0.939 = Red"
  using getNFIStatus_bands [of "0.971"] getNFIStatus_bands [of "0.939"] by simp

text \<open>
  Claim C4. For every baseline peak that is zero or negative, \<open>calculateNFI\<close> returns
  exactly 1.0 whatever the current peak; for every positive baseline it returns the
  quotient of the current peak by the baseline rounded to three decimals: a multiple of
  0.001 no further than 0.0005 from the quotient.
\<close>

theorem calculateNFI_spec:
  "(avgVmax \<le> 0 \<longrightarrow> calculateNFI currentVmax avgVmax = 1.0)
   \<and> (avgVmax > 0 \<longrightarrow>
        calculateNFI currentVmax avgVmax * 1000 \<in> \<int>
        \<and> \<bar>calculateNFI currentVmax avgVmax - currentVmax / avgVmax\<bar> \<le> 1 / 2000)"
  using toFixedNum_grid [of 3 "currentVmax / avgVmax"]
    toFixedNum_near [of 3 "currentVmax / avgVmax"]
  by (simp add: calculateNFI_def)

theorem calculateNFI_spec_witness:
  "(0::real) \<le> 0 \<and> calculateNFI 9.5 0 = 1.0
   \<and> (3::real) > 0 \<and> calculateNFI 2 3 * 1000 \<in> \<int> \<and> \<bar>calculateNFI 2 3 - 2 / 3\<bar> \<le> 1 / 2000"
  using calculateNFI_spec [of 0 "9.5"] calculateNFI_spec [of 3 2] by simp

lemma nfiScore_mono:
  fixes a b :: real
  assumes "a \<le> b"
  shows "min 100 (max 0 ((a - 0.90) / 0.10 * 100)) \<le> min 100 (max 0 ((b - 0.90) / 0.10 * 100))"
  using assms by (simp add: min_def max_def)

lemma calculateSRS_mono_nfi:
  assumes "a \<le> b"
  shows "calculateSRS hrv tsb a \<le> calculateSRS hrv tsb b"
  unfolding calculateSRS_def Let_def
  using nfiScore_mono [OF assms] by (intro Math_round_mono) simp

text \<open>
  Claim C10. For every HRV pair, training stress balance and fatigue index,
  \<open>calculateFreshnessAdjustedSRS\<close> is at least \<open>calculateSRS\<close> on the same inputs: the
  stale-signal substitution of a neutral fatigue index can only raise the score.
\<close>

theorem freshness_adjusted_ge:
  "calculateSRS hrv tsb nfi \<le> calculateFreshnessAdjustedSRS hrv tsb nfi"
proof (cases "(getNFIStatus nfi = Red \<or> getNFIStatus nfi = Amber) \<and> tsb \<ge> 0")
  case True
  then have "nfi \<le> 1.0" by (auto simp: getNFIStatus_def split: if_splits)
  from calculateSRS_mono_nfi [OF this] show ?thesis
    using True by (simp add: calculateFreshnessAdjustedSRS_def)
next
  case False
  then show ?thesis by (auto simp add: calculateFreshnessAdjustedSRS_def Let_def)
qed

section \<open>Interval parser: properties\<close>

lemmas parser_defs = parseTrackSession_def parseStep_def classifyBurst_def classifyType_def
  computeFlyingVelocity_def Math_max_def MOVING_THRESHOLD_def MIN_REP_DISTANCE_def Math_round_def

lemma classifyType_round:
  assumes "Math_round d \<notin> {40, 80, 150}"
  shows "classifyType d = classifyType (Math_round d)"
proof -
  define n where "n = \<lfloor>d + 1 / 2\<rfloor>"
  have lo: "of_int n \<le> d + 1 / 2" and hi: "d + 1 / 2 < of_int n + 1"
    unfolding n_def by linarith+
  have D: "Math_round d = of_int n" by (simp add: Math_round_def n_def)
  have ne: "n \<noteq> 40" "n \<noteq> 80" "n \<noteq> 150" using assms unfolding D by auto
  have a: "d \<le> 40 \<longleftrightarrow> n \<le> 40" using lo hi ne(1) by linarith
  have b: "d \<le> 80 \<longleftrightarrow> n \<le> 80" using lo hi ne(2) by linarith
  have c: "d \<le> 150 \<longleftrightarrow> n \<le> 150" using lo hi ne(3) by linarith
  show ?thesis unfolding D classifyType_def using a b c by simp
qed

lemma Math_round_ge_10: "10 \<le> d \<Longrightarrow> 10 \<le> Math_round d"
proof -
  assume "10 \<le> d"
  then have "(10::int) \<le> \<lfloor>d + 1 / 2\<rfloor>" by linarith
  then show ?thesis unfolding Math_round_def by linarith
qed

lemma classifyBurst_Some:
  assumes "classifyBurst burst = Some iv"
  shows "10 \<le> sum_list burst \<and> ti_distance iv = Math_round (sum_list burst)
         \<and> ti_type iv = classifyType (sum_list burst)
         \<and> ti_flyingVelocity iv = computeFlyingVelocity burst
         \<and> ti_duration iv = real (length burst)"
  using assms by (auto simp: classifyBurst_def Let_def MIN_REP_DISTANCE_def split: if_splits)

lemma sublist_skip_left: "sublist b ys \<Longrightarrow> sublist b (pre @ ys)"
proof -
  assume "sublist b ys"
  then obtain ps ss where "ys = ps @ b @ ss" by (auto simp: sublist_def)
  then have "pre @ ys = (pre @ ps) @ b @ ss" by simp
  then show ?thesis unfolding sublist_def by blast
qed

text \<open>
  The loop invariant: whatever the loop returns was already in \<open>intervals\<close> or is
  emitted from the open burst followed by the samples still to read.
\<close>

lemma parseLoop_emitted:
  assumes "iv \<in> set (parseLoop rest (cur, ivs))" and "\<forall>v \<in> set cur. 1 \<le> v"
  shows "iv \<in> set ivs \<or> emitted (cur @ rest) iv"
  using assms
proof (induction rest arbitrary: cur ivs)
  case Nil
  then show ?case
    by (auto simp: parseStep_def MOVING_THRESHOLD_def emitted_def split: option.splits if_splits)
next
  case (Cons v rest)
  show ?case
  proof (cases "1 \<le> v")
    case True
    then have st: "parseStep v (cur, ivs) = (cur @ [v], ivs)"
      by (simp add: parseStep_def MOVING_THRESHOLD_def)
    have "iv \<in> set ivs \<or> emitted ((cur @ [v]) @ rest) iv"
      using Cons.prems True by (intro Cons.IH) (auto simp: st)
    then show ?thesis by simp
  next
    case False
    show ?thesis
    proof (cases "cur = []")
      case True
      then have st: "parseStep v (cur, ivs) = ([], ivs)"
        using False by (simp add: parseStep_def MOVING_THRESHOLD_def)
      have "iv \<in> set ivs \<or> emitted ([] @ rest) iv"
        using Cons.prems by (intro Cons.IH) (auto simp: st)
      then show ?thesis
        using True by (auto simp: emitted_def sublist_Cons_right)
    next
      case ne: False
      have "\<exists>ivs'. parseStep v (cur, ivs) = ([], ivs')
          \<and> (ivs' = ivs \<or> (\<exists>iv0. classifyBurst cur = Some iv0 \<and> ivs' = ivs @ [iv0]))"
        using False ne
        by (cases "classifyBurst cur") (simp_all add: parseStep_def MOVING_THRESHOLD_def)
      then obtain ivs' where st: "parseStep v (cur, ivs) = ([], ivs')"
        and ivs': "ivs' = ivs \<or> (\<exists>iv0. classifyBurst cur = Some iv0 \<and> ivs' = ivs @ [iv0])"
        by blast
      have "iv \<in> set ivs' \<or> emitted ([] @ rest) iv"
        using Cons.prems by (intro Cons.IH) (auto simp: st)
      then consider "iv \<in> set ivs" | "classifyBurst cur = Some iv" | "emitted rest iv"
        using ivs' by auto
      then show ?thesis
      proof cases
        case 1
        then show ?thesis by simp
      next
        case 2
        have "sublist cur (cur @ v # rest)" by (simp add: sublist_def) (metis append_Nil)
        then show ?thesis using 2 ne Cons.prems(2) by (auto simp: emitted_def)
      next
        case 3
        then obtain b where b: "sublist b rest" "b \<noteq> []" "\<forall>v \<in> set b. 1 \<le> v"
          "classifyBurst b = Some iv"
          by (auto simp: emitted_def)
        have "sublist b (cur @ v # rest)"
          using b(1) sublist_skip_left [of b rest "cur @ [v]"] by simp
        then show ?thesis using b by (auto simp: emitted_def)
      qed
    qed
  qed
qed

lemma parseTrackSession_emitted:
  assumes "iv \<in> set (parseTrackSession velocity_smooth)"
  shows "emitted (case velocity_smooth of Some s \<Rightarrow> s | None \<Rightarrow> []) iv"
  using parseLoop_emitted [of iv "case velocity_smooth of Some s \<Rightarrow> s | None \<Rightarrow> []" "[]" "[]"] assms
  by (simp add: parseTrackSession_def)

lemma flyingLoop_fold:
  assumes "w \<le> length burst"
  shows "flyingLoop burst w i best =
         fold max (map (\<lambda>i. sum_list (take w (drop i burst)) / real w) [i ..< Suc (length burst - w)]) best"
  using assms
proof (induction burst w i best rule: flyingLoop.induct)
  case (1 burst windowSize i bestAvg)
  show ?case
  proof (cases "i \<le> length burst - windowSize")
    case True
    then have c: "int i \<le> int (length burst) - int windowSize" using "1.prems" by linarith
    have u: "[i ..< Suc (length burst - windowSize)] = i # [Suc i ..< Suc (length burst - windowSize)]"
      using True by (simp add: upt_conv_Cons)
    show ?thesis
      apply (subst flyingLoop.simps)
      apply (simp only: c if_True Let_def)
      apply (subst "1.IH" [OF c refl "1.prems"])
      apply (subst u)
      apply (simp add: max_def)
      done
  next
    case False
    then have c: "\<not> int i \<le> int (length burst) - int windowSize" using "1.prems" by linarith
    have u: "[i ..< Suc (length burst - windowSize)] = []" using False by simp
    show ?thesis
      by (subst flyingLoop.simps) (simp only: c if_False u list.map fold.simps id_apply)
  qed
qed

text \<open>
  On a burst of more than three non-negative samples the loop computes the greatest
  window mean, and \<open>computeFlyingVelocity\<close> is the flying velocity of the
  specification.
\<close>

lemma computeFlyingVelocity_long:
  assumes "3 < length burst" and "\<forall>v \<in> set burst. 0 \<le> v"
  shows "computeFlyingVelocity burst = flyingVelocity_spec burst"
proof -
  let ?ms = "windowMeans 3 burst"
  have ne: "?ms \<noteq> []" by (simp add: windowMeans_def)
  have nonneg: "\<forall>m \<in> set ?ms. 0 \<le> m"
  proof
    fix m assume "m \<in> set ?ms"
    then obtain i where m: "m = sum_list (take 3 (drop i burst)) / real (3::nat)"
      unfolding windowMeans_def set_map by blast
    have "\<forall>v \<in> set (take 3 (drop i burst)). 0 \<le> v"
      using assms(2) by (meson in_set_dropD in_set_takeD)
    then have "0 \<le> sum_list (take 3 (drop i burst))" by (simp add: sum_list_nonneg)
    then show "0 \<le> m" unfolding m by simp
  qed
  have "flyingLoop burst 3 0 0 = fold max ?ms 0"
    using assms(1) by (simp add: flyingLoop_fold windowMeans_def)
  also have "\<dots> = Max (set (0 # ?ms))" by (simp only: Max.set_eq_fold)
  also have "\<dots> = max 0 (Max (set ?ms))" using ne by simp
  also have "\<dots> = Max (set ?ms)"
  proof -
    obtain m where "m \<in> set ?ms" using ne by (cases ?ms) auto
    then have "0 \<le> m" "m \<le> Max (set ?ms)" using nonneg by auto
    then show ?thesis by simp
  qed
  finally have "flyingLoop burst 3 0 0 = Max (set ?ms)" .
  moreover have "min 3 (length burst) = 3" "length burst \<noteq> 0" "\<not> length burst \<le> 3"
    using assms(1) by auto
  ultimately show ?thesis
    unfolding computeFlyingVelocity_def flyingVelocity_spec_def by (simp only: if_False)
qed

text \<open>
  Claim C6, as the code has it at a burst of three samples. On the stream 10, 10, 11 the
  parser emits one interval whose flying velocity is the unrounded mean 31/3, while the
  best window mean rounded to two decimals is 10.33: the branch of
  \<open>computeFlyingVelocity\<close> for bursts of at most three samples returns before the
  rounding that the loop's branch applies.
\<close>

theorem computeFlyingVelocity_short_unrounded:
  "parseTrackSession (Some [10, 10, 11]) =
     [\<lparr>ti_type = Acceleration, ti_distance = 31, ti_vMax = 11, ti_duration = 3,
       ti_flyingVelocity = 31 / 3\<rparr>]
   \<and> flyingVelocity_spec [10, 10, 11] = 10.33"
proof -
  have "parseTrackSession (Some [10, 10, 11]) =
     [\<lparr>ti_type = Acceleration, ti_distance = 31, ti_vMax = 11, ti_duration = 3,
       ti_flyingVelocity = 31 / 3\<rparr>]"
    by (simp add: parser_defs)
  moreover have "flyingVelocity_spec [10, 10, 11] = 10.33"
    by (simp add: flyingVelocity_spec_def windowMeans_def toFixedNum_def toFixedInt_def)
  ultimately show ?thesis by simp
qed

text \<open>
  Claim C7, as stated, fails: four samples of 10.1 make a burst of 40.4 metres, which is
  classified MaxVelocity from the unrounded distance and reported with distance 40, a
  distance of the Acceleration band.
\<close>

theorem classification_reported_distance_counterexample:
  "parseTrackSession (Some [10.1, 10.1, 10.1, 10.1]) =
     [\<lparr>ti_type = MaxVelocity, ti_distance = 40, ti_vMax = 10.1, ti_duration = 4,
       ti_flyingVelocity = 10.1\<rparr>]
   \<and> classifyType 40 = Acceleration"
proof -
  have "parseTrackSession (Some [10.1, 10.1, 10.1, 10.1]) =
     [\<lparr>ti_type = MaxVelocity, ti_distance = 40, ti_vMax = 10.1, ti_duration = 4,
       ti_flyingVelocity = 10.1\<rparr>]"
    by (simp add: parser_defs toFixedNum_def toFixedInt_def flyingLoop.simps Let_def)
  moreover have "classifyType 40 = Acceleration" by (simp add: classifyType_def)
  ultimately show ?thesis by simp
qed

text \<open>
  Claim C7, amended. Every interval returned by \<open>parseTrackSession\<close> has an integer
  distance of at least 10 metres and comes from a contiguous run of samples at or above
  the moving threshold: its distance is the rounded sum of the run, and its classification
  is that of the fixed bands applied to the unrounded sum. The classification therefore
  agrees with the bands applied to the reported distance whenever that distance is not
  one of the band boundaries 40, 80 and 150.
\<close>

theorem parseTrackSession_intervals:
  assumes "iv \<in> set (parseTrackSession velocity_smooth)"
  shows "10 \<le> ti_distance iv \<and> ti_distance iv \<in> \<int>
         \<and> (\<exists>burst. sublist burst (case velocity_smooth of Some s \<Rightarrow> s | None \<Rightarrow> [])
               \<and> burst \<noteq> [] \<and> (\<forall>v \<in> set burst. 1 \<le> v)
               \<and> 10 \<le> sum_list burst
               \<and> ti_distance iv = Math_round (sum_list burst)
               \<and> ti_type iv = classifyType (sum_list burst))
         \<and> (ti_distance iv \<notin> {40, 80, 150} \<longrightarrow> ti_type iv = classifyType (ti_distance iv))"
proof -
  from parseTrackSession_emitted [OF assms]
  obtain burst where b: "sublist burst (case velocity_smooth of Some s \<Rightarrow> s | None \<Rightarrow> [])"
    "burst \<noteq> []" "\<forall>v \<in> set burst. 1 \<le> v" "classifyBurst burst = Some iv"
    unfolding emitted_def by blast
  note c = classifyBurst_Some [OF b(4)]
  have d: "10 \<le> ti_distance iv" using c Math_round_ge_10 by simp
  have i: "ti_distance iv \<in> \<int>" using c Math_round_int by simp
  have e: "ti_distance iv \<notin> {40, 80, 150} \<longrightarrow> ti_type iv = classifyType (ti_distance iv)"
    using c classifyType_round [of "sum_list burst"] by simp
  show ?thesis using b c d i e by blast
qed

theorem parseTrackSession_intervals_witness:
  "\<lparr>ti_type = Acceleration, ti_distance = 36, ti_vMax = 9.2, ti_duration = 6,
     ti_flyingVelocity = 8.57\<rparr> \<in> set (parseTrackSession (Some [0, 0.5, 2, 5, 7.5, 9, 9.2, 3, 0.5, 0]))
   \<and> (10::real) \<le> 36 \<and> (36::real) \<notin> {40, 80, 150} \<and> classifyType 36 = Acceleration"
proof -
  let ?iv = "\<lparr>ti_type = Acceleration, ti_distance = 36, ti_vMax = 9.2, ti_duration = 6,
     ti_flyingVelocity = 8.57\<rparr>"
  have "parseTrackSession (Some [0, 0.5, 2, 5, 7.5, 9, 9.2, 3, 0.5, 0]) = [?iv]"
    by (simp add: parser_defs toFixedNum_def toFixedInt_def flyingLoop.simps Let_def)
  then have m: "?iv \<in> set (parseTrackSession (Some [0, 0.5, 2, 5, 7.5, 9, 9.2, 3, 0.5, 0]))"
    by simp
  from parseTrackSession_intervals [OF m]
  have "10 \<le> ti_distance ?iv
        \<and> (ti_distance ?iv \<notin> {40, 80, 150} \<longrightarrow> ti_type ?iv = classifyType (ti_distance ?iv))"
    by blast
  then show ?thesis using m by simp
qed

section \<open>Sprint workouts: properties\<close>


lemma sw_names:
  "sw_name (greenWorkout nfi) = ''Max Velocity -- Neural Priming Session''"
  "sw_name (amberWorkout nfi) = ''Technical Sprint -- CNS Management Session''"
  "sw_name (redWorkout nfi) = ''Recovery -- Neural Restoration''"
  "sw_name (reactivationWorkout nfi tsb) = ''Neural Re-Activation -- Restore Sprint Speed''"
  by (simp_all add: greenWorkout_def amberWorkout_def redWorkout_def reactivationWorkout_def Let_def)

lemma sw_statuses:
  "sw_status (greenWorkout nfi) = Green"
  "sw_status (amberWorkout nfi) = Amber"
  "sw_status (redWorkout nfi) = Red"
  "sw_status (reactivationWorkout nfi tsb) = Red"
  by (simp_all add: greenWorkout_def amberWorkout_def redWorkout_def reactivationWorkout_def Let_def)

lemma reactivation_distinct:
  "reactivationWorkout nfi tsb \<noteq> greenWorkout nfi'"
  "reactivationWorkout nfi tsb \<noteq> amberWorkout nfi'"
  "reactivationWorkout nfi tsb \<noteq> redWorkout nfi'"
proof -
  have "sw_name (reactivationWorkout nfi tsb) \<noteq> sw_name (greenWorkout nfi')"
    unfolding sw_names by simp
  then show "reactivationWorkout nfi tsb \<noteq> greenWorkout nfi'" by auto
  have "sw_name (reactivationWorkout nfi tsb) \<noteq> sw_name (amberWorkout nfi')"
    unfolding sw_names by simp
  then show "reactivationWorkout nfi tsb \<noteq> amberWorkout nfi'" by auto
  have "sw_name (reactivationWorkout nfi tsb) \<noteq> sw_name (redWorkout nfi')"
    unfolding sw_names by simp
  then show "reactivationWorkout nfi tsb \<noteq> redWorkout nfi'" by auto
qed

text \<open>
  Claim C5. When a context is supplied and the stale-signal predicate holds for the
  status band and the context's balance, \<open>generate\<close> returns the neural re-activation
  workout, which is none of the three plain workouts; when the context is absent or the
  predicate fails, it returns the green, amber or red workout of the status band. In
  particular red with index 0.90 and balance 5 selects the re-activation workout, and
  red with index 0.90 and balance -15 selects the recovery workout.
\<close>

theorem generate_selection:
  "(isStaleVmax nfiStatus (Some c) \<longrightarrow>
      generate nfiStatus nfi (Some c) = reactivationWorkout nfi (ctx_tsb c)
      \<and> generate nfiStatus nfi (Some c) \<noteq> greenWorkout nfi
      \<and> generate nfiStatus nfi (Some c) \<noteq> amberWorkout nfi
      \<and> generate nfiStatus nfi (Some c) \<noteq> redWorkout nfi)
   \<and> (\<not> isStaleVmax nfiStatus context \<longrightarrow>
      generate nfiStatus nfi context =
        (case nfiStatus of Green \<Rightarrow> greenWorkout nfi | Amber \<Rightarrow> amberWorkout nfi
         | Red \<Rightarrow> redWorkout nfi)
      \<and> sw_status (generate nfiStatus nfi context) = nfiStatus)
   \<and> sw_name (generate Red 0.90 (Some \<lparr>ctx_tsb = 5\<rparr>)) = ''Neural Re-Activation -- Restore Sprint Speed''
   \<and> sw_name (generate Red 0.90 (Some \<lparr>ctx_tsb = - 15\<rparr>)) = ''Recovery -- Neural Restoration''"
proof -
  have a: "isStaleVmax nfiStatus (Some c) \<longrightarrow>
      generate nfiStatus nfi (Some c) = reactivationWorkout nfi (ctx_tsb c)
      \<and> generate nfiStatus nfi (Some c) \<noteq> greenWorkout nfi
      \<and> generate nfiStatus nfi (Some c) \<noteq> amberWorkout nfi
      \<and> generate nfiStatus nfi (Some c) \<noteq> redWorkout nfi"
    using reactivation_distinct [of nfi "ctx_tsb c" nfi] by (simp add: generate_def)
  have b: "\<not> isStaleVmax nfiStatus context \<longrightarrow>
      generate nfiStatus nfi context =
        (case nfiStatus of Green \<Rightarrow> greenWorkout nfi | Amber \<Rightarrow> amberWorkout nfi
         | Red \<Rightarrow> redWorkout nfi)
      \<and> sw_status (generate nfiStatus nfi context) = nfiStatus"
    by (cases nfiStatus) (simp_all add: generate_def sw_statuses)
  have c: "sw_name (generate Red 0.90 (Some \<lparr>ctx_tsb = 5\<rparr>)) = ''Neural Re-Activation -- Restore Sprint Speed''"
    by (simp add: generate_def isStaleVmax_def sw_names)
  have d: "sw_name (generate Red 0.90 (Some \<lparr>ctx_tsb = - 15\<rparr>)) = ''Recovery -- Neural Restoration''"
    by (simp add: generate_def isStaleVmax_def sw_names)
  from a b c d show ?thesis by blast
qed

theorem generate_selection_witness:
  "isStaleVmax Red (Some \<lparr>ctx_tsb = 5\<rparr>)
   \<and> generate Red 0.90 (Some \<lparr>ctx_tsb = 5\<rparr>) = reactivationWorkout 0.90 5
   \<and> \<not> isStaleVmax Red (Some \<lparr>ctx_tsb = - 15\<rparr>)
   \<and> generate Red 0.90 (Some \<lparr>ctx_tsb = - 15\<rparr>) = redWorkout 0.90
   \<and> \<not> isStaleVmax Amber None
   \<and> generate Amber 0.95 None = amberWorkout 0.95"
  using generate_selection [of Red "\<lparr>ctx_tsb = 5\<rparr>" "0.90" "Some \<lparr>ctx_tsb = - 15\<rparr>"]
    generate_selection [of Amber "\<lparr>ctx_tsb = 5\<rparr>" "0.95" None]
  by (simp add: isStaleVmax_def)

section \<open>Race time estimator: properties\<close>

lemmas estimator_defs = estimate_def estimateDistance_def getDynamicSustainFractions_def
  getReadinessModifier_def REACTION_TIME_def AGE_DEGRADATION_PER_YEAR_def Let_def

lemma clamp_bounds:
  fixes lo hi x :: real
  assumes "lo \<le> hi"
  shows "lo \<le> max lo (min hi x) \<and> max lo (min hi x) \<le> hi"
  using assms by auto

lemma sustain_bounds:
  "0.91 \<le> getDynamicSustainFractions profile D100 \<and> getDynamicSustainFractions profile D100 \<le> 0.95
   \<and> 0.82 \<le> getDynamicSustainFractions profile D200 \<and> getDynamicSustainFractions profile D200 \<le> 0.93
   \<and> 0.70 \<le> getDynamicSustainFractions profile D400 \<and> getDynamicSustainFractions profile D400 \<le> 0.85"
proof (cases profile)
  case None
  then show ?thesis by (simp add: getDynamicSustainFractions_def)
next
  case (Some p)
  define base1 where "base1 =
     (if tp_seIntervalCount p \<ge> 2 \<and> tp_speedEnduranceIndex p > 0 then
        BASE_SPEED_SUSTAIN
          (D200 := max 0.82 (min 0.93 (BASE_SPEED_SUSTAIN D200 + (tp_speedEnduranceIndex p - 0.85) * 0.5)),
           D400 := max 0.70 (min 0.85 (BASE_SPEED_SUSTAIN D400 + (tp_speedEnduranceIndex p - 0.85) * 0.7)))
      else BASE_SPEED_SUSTAIN)"
  define base2 where "base2 =
     (if tp_accelIntervalCount p \<ge> 3 \<and> tp_avgAccelerationTime p > 0 then
        (if tp_avgAccelerationTime p < 4.5 then
           base1(D100 := min 0.95 (base1 D100 + (4.5 - tp_avgAccelerationTime p) * 0.01))
         else base1)
      else base1)"
  have g: "getDynamicSustainFractions profile = base2"
    unfolding Some getDynamicSustainFractions_def Let_def base2_def base1_def by simp
  have b100: "base1 D100 = 0.91" by (simp add: base1_def)
  have b200: "0.82 \<le> base1 D200 \<and> base1 D200 \<le> 0.93"
  proof (cases "tp_seIntervalCount p \<ge> 2 \<and> tp_speedEnduranceIndex p > 0")
    case True
    then have "base1 D200 =
        max 0.82 (min 0.93 (BASE_SPEED_SUSTAIN D200 + (tp_speedEnduranceIndex p - 0.85) * 0.5))"
      unfolding base1_def by simp
    then show ?thesis using clamp_bounds [of "0.82" "0.93"] by (simp del: max_less_iff_conj)
  next
    case False
    then have "base1 D200 = 0.88" unfolding base1_def by auto
    then show ?thesis by simp
  qed
  have b400: "0.70 \<le> base1 D400 \<and> base1 D400 \<le> 0.85"
  proof (cases "tp_seIntervalCount p \<ge> 2 \<and> tp_speedEnduranceIndex p > 0")
    case True
    then have "base1 D400 =
        max 0.70 (min 0.85 (BASE_SPEED_SUSTAIN D400 + (tp_speedEnduranceIndex p - 0.85) * 0.7))"
      unfolding base1_def by simp
    then show ?thesis using clamp_bounds [of "0.70" "0.85"] by (simp del: max_less_iff_conj)
  next
    case False
    then have "base1 D400 = 0.78" unfolding base1_def by auto
    then show ?thesis by simp
  qed
  have c100: "0.91 \<le> base2 D100 \<and> base2 D100 \<le> 0.95"
  proof (cases "tp_accelIntervalCount p \<ge> 3 \<and> tp_avgAccelerationTime p > 0
                \<and> tp_avgAccelerationTime p < 4.5")
    case True
    then have e: "base2 D100 = min 0.95 (0.91 + (4.5 - tp_avgAccelerationTime p) * 0.01)"
      unfolding base2_def using b100 by simp
    have "0 \<le> (4.5 - tp_avgAccelerationTime p) * 0.01" using True by simp
    then show ?thesis unfolding e by (simp add: min_def)
  next
    case False
    then have "base2 D100 = base1 D100" unfolding base2_def by auto
    then show ?thesis using b100 by simp
  qed
  have c200: "base2 D200 = base1 D200" by (simp add: base2_def)
  have c400: "base2 D400 = base1 D400" by (simp add: base2_def)
  show ?thesis unfolding g using c100 c200 c400 b200 b400 by simp
qed

lemma readiness_bounds:
  "0.95 \<le> getReadinessModifier nfi tsb \<and> getReadinessModifier nfi tsb \<le> 1.03"
  by (simp add: getReadinessModifier_def Let_def)

lemma estimateDistance_time:
  assumes "0 < max (in_bestVmax60d input) (in_avgVmax input)"
  shows "\<exists>E f A R. 0 < E \<and> E \<le> 1.02 * max (in_bestVmax60d input) (in_avgVmax input)
           \<and> 0.4 * max (in_bestVmax60d input) (in_avgVmax input) \<le> E
           \<and> 0.91 \<le> f D100 \<and> f D100 \<le> 0.95 \<and> 0.82 \<le> f D200 \<and> f D200 \<le> 0.93
           \<and> 0.70 \<le> f D400 \<and> f D400 \<le> 0.85
           \<and> 0.65 \<le> A \<and> A \<le> 1 \<and> 0.95 \<le> R \<and> R \<le> 1.03
           \<and> (\<forall>d. re_predictedTime (estimateDistance d input) =
                     toFixedNum 2 (metres d / (E * f d * A * R) + 0.15))"
proof -
  define peak where "peak = max (in_bestVmax60d input) (in_avgVmax input)"
  define profile where "profile =
     (case in_trainingIntervals input of None \<Rightarrow> None
      | Some intervals \<Rightarrow> if length intervals > 0
                          then Some (buildTrainingProfile intervals peak) else None)"
  define E where "E =
     (case profile of None \<Rightarrow> peak
      | Some p \<Rightarrow> if tp_bestFlyingVelocity p > 0
                  then min (tp_bestFlyingVelocity p * 0.6 + peak * 0.4) (peak * 1.02) else peak)"
  define A where "A = max (if in_age input > 35
                           then 1 - (in_age input - 35) * AGE_DEGRADATION_PER_YEAR else 1) 0.65"
  define R where "R = getReadinessModifier (in_nfi input) (in_tsb input)"
  define f where "f = getDynamicSustainFractions profile"
  have pk: "0 < peak" using assms by (simp add: peak_def)
  have E: "0 < E \<and> E \<le> 1.02 * peak"
    using pk by (cases profile) (auto simp: E_def min_def)
  have E': "0.4 * peak \<le> E"
    using pk by (cases profile) (auto simp: E_def min_def)
  have A: "0.65 \<le> A \<and> A \<le> 1"
    by (auto simp: A_def AGE_DEGRADATION_PER_YEAR_def)
  have R: "0.95 \<le> R \<and> R \<le> 1.03" unfolding R_def by (rule readiness_bounds)
  have f: "0.91 \<le> f D100 \<and> f D100 \<le> 0.95 \<and> 0.82 \<le> f D200 \<and> f D200 \<le> 0.93
           \<and> 0.70 \<le> f D400 \<and> f D400 \<le> 0.85"
    unfolding f_def by (rule sustain_bounds)
  have t: "\<forall>d. re_predictedTime (estimateDistance d input) =
                     toFixedNum 2 (metres d / (E * f d * A * R) + 0.15)"
    using pk unfolding estimateDistance_def Let_def peak_def [symmetric] profile_def [symmetric]
      E_def [symmetric] A_def [symmetric] R_def [symmetric] f_def [symmetric]
    by (simp add: REACTION_TIME_def)
  show ?thesis
    using E E' A R f t unfolding peak_def by blast
qed







lemma estimate_nth:
  "estimate input ! 0 = estimateDistance D100 input"
  "estimate input ! 1 = estimateDistance D200 input"
  "estimate input ! 2 = estimateDistance D400 input"
  "set (estimate input) = {estimateDistance D100 input, estimateDistance D200 input,
      estimateDistance D400 input}"
  by (simp_all add: estimate_def)




lemma ratio_gap:
  fixes a b c f g :: real
  assumes "0 < c" and "c \<le> 10506" and "0 < f" and "0 < g" and "a / f + 105.1 \<le> b / g"
  shows "(a / (c * f) + 0.15) + 1 / 10 ^ 2 \<le> b / (c * g) + 0.15"
proof -
  have "(1::real) / 10 ^ 2 \<le> 105.1 / 10506" by simp
  also have "\<dots> \<le> 105.1 / c" using assms(1,2) by (intro divide_left_mono) simp_all
  finally have "a / f / c + 1 / 10 ^ 2 \<le> (a / f + 105.1) / c" by (simp add: add_divide_distrib)
  also have "\<dots> \<le> b / g / c" using assms(1,5) by (intro divide_right_mono) simp_all
  finally have m: "a / f / c + 1 / 10 ^ 2 \<le> b / g / c" .
  have e: "a / (c * f) = a / f / c" "b / (c * g) = b / g / c" by (simp_all add: mult.commute)
  show ?thesis unfolding e using m by linarith
qed

text \<open>
  Claim C9, amended. For every estimator input whose peak velocity, the greater of
  \<open>bestVmax60d\<close> and \<open>avgVmax\<close>, is at least 0.001 m/s and at most 10000 m/s, the
  predicted time for 100 m is strictly less than that for 200 m, which is strictly less
  than that for 400 m, and the three times are at most 2314000 seconds. The lower bound
  keeps the quotient \<open>distance / avgSpeed\<close> far below the greatest finite number of
  JavaScript: at a peak velocity such as \<open>1e-307\<close> the quotient overflows there and the
  three times are all infinite, where the exact division of this model stays finite.
\<close>

theorem predicted_times_increase:
  assumes lo: "1 / 1000 \<le> max (in_bestVmax60d input) (in_avgVmax input)"
    and hi: "max (in_bestVmax60d input) (in_avgVmax input) \<le> 10000"
  shows "re_predictedTime (estimate input ! 0) < re_predictedTime (estimate input ! 1)
         \<and> re_predictedTime (estimate input ! 1) < re_predictedTime (estimate input ! 2)
         \<and> re_predictedTime (estimate input ! 2) \<le> 2314000
         \<and> map re_distance (estimate input) = [D100, D200, D400]"
proof -
  define peak where "peak = max (in_bestVmax60d input) (in_avgVmax input)"
  have pl: "1 / 1000 \<le> peak" and ph: "peak \<le> 10000" using lo hi by (simp_all only: peak_def)
  have pk: "0 < max (in_bestVmax60d input) (in_avgVmax input)"
    using pl unfolding peak_def by linarith
  from estimateDistance_time [OF pk]
  obtain E f A R where E: "0 < E" "E \<le> 1.02 * peak" "0.4 * peak \<le> E"
    and f: "0.91 \<le> f D100" "f D100 \<le> 0.95" "0.82 \<le> f D200" "f D200 \<le> 0.93"
      "0.70 \<le> f D400" "f D400 \<le> 0.85"
    and A: "0.65 \<le> A" "A \<le> 1" and R: "0.95 \<le> R" "R \<le> 1.03"
    and t: "\<forall>d. re_predictedTime (estimateDistance d input) =
                 toFixedNum 2 (metres d / (E * f d * A * R) + 0.15)"
    unfolding peak_def by blast
  define c where "c = E * A * R"
  have c0: "0 < c" using E A R by (simp add: c_def)
  have "E \<le> 10200" using E(2) ph by simp
  then have EA: "E * A \<le> 10200 * 1" using A E by (intro mult_mono) simp_all
  have "E * A * R \<le> 10200 * 1 * 1.03"
    by (rule mult_mono) (use EA A E R in simp_all)
  then have cK: "c \<le> 10506" by (simp add: c_def)
  have "0.0004 \<le> E" using E(3) pl by simp
  then have EA': "0.0004 * 0.65 \<le> E * A" using A by (intro mult_mono) simp_all
  have "0.0004 * 0.65 * 0.95 \<le> E * A * R"
    by (rule mult_mono) (use EA' R in simp_all)
  then have cL: "0.000247 \<le> c" by (simp add: c_def)
  have r: "E * f d * A * R = c * f d" for d by (simp add: c_def mult_ac)
  have f0: "0 < f D100" "0 < f D200" "0 < f D400" using f by simp_all
  have g12: "100 / f D100 + 105.1 \<le> 200 / f D200"
  proof -
    have "100 / f D100 \<le> 100 / 0.91" using f(1) by (intro frac_le) simp_all
    moreover have "200 / 0.93 \<le> 200 / f D200" using f(4) f0(2) by (intro frac_le) simp_all
    ultimately show ?thesis by simp
  qed
  have g24: "200 / f D200 + 105.1 \<le> 400 / f D400"
  proof -
    have "200 / f D200 \<le> 200 / 0.82" using f(3) by (intro frac_le) simp_all
    moreover have "400 / 0.85 \<le> 400 / f D400" using f(6) f0(3) by (intro frac_le) simp_all
    ultimately show ?thesis by simp
  qed
  have n: "0 \<le> metres d / (c * f d) + 0.15" for d
  proof -
    have "0 < f d" using f0 by (cases d) simp_all
    moreover have "0 < metres d" by (cases d) simp_all
    ultimately show ?thesis using c0 by simp
  qed
  have s12: "toFixedNum 2 (metres D100 / (c * f D100) + 0.15)
             < toFixedNum 2 (metres D200 / (c * f D200) + 0.15)"
    using ratio_gap [OF c0 cK f0(1) f0(2) g12] n [of D100]
    by (intro toFixedNum_strict) simp_all
  have s24: "toFixedNum 2 (metres D200 / (c * f D200) + 0.15)
             < toFixedNum 2 (metres D400 / (c * f D400) + 0.15)"
    using ratio_gap [OF c0 cK f0(2) f0(3) g24] n [of D200]
    by (intro toFixedNum_strict) simp_all
  have u: "toFixedNum 2 (metres D400 / (c * f D400) + 0.15) \<le> 2314000"
  proof -
    have "0.000247 * 0.70 \<le> c * f D400" using cL f(5) by (intro mult_mono) simp_all
    then have "400 / (c * f D400) \<le> 400 / (0.000247 * 0.70)"
      by (intro frac_le) simp_all
    then have x: "metres D400 / (c * f D400) + 0.15 \<le> 2313500" by simp
    have "\<bar>toFixedNum 2 (metres D400 / (c * f D400) + 0.15)
            - (metres D400 / (c * f D400) + 0.15)\<bar> \<le> 1 / (2 * 10 ^ 2)"
      by (rule toFixedNum_near)
    moreover have "(1::real) / (2 * 10 ^ 2) \<le> 1" by simp
    ultimately have "toFixedNum 2 (metres D400 / (c * f D400) + 0.15)
            \<le> (metres D400 / (c * f D400) + 0.15) + 1" by linarith
    then show ?thesis using x by linarith
  qed
  have d: "map re_distance (estimate input) = [D100, D200, D400]"
    using pk by (auto simp: estimate_def estimateDistance_def Let_def)
  show ?thesis
    unfolding estimate_nth using s12 s24 u d t r by simp
qed

text \<open>
  Claim C9, as stated, fails on two kinds of input: with no velocity data the three
  predicted times are all 0, and at a peak velocity of 1000000 m/s the three times all
  round to 0.15 seconds.
\<close>

theorem predicted_times_increase_counterexample:
  "map re_predictedTime
     (estimate \<lparr>in_bestVmax60d = 0, in_avgVmax = 0, in_nfi = 1, in_nfiStatus = Green,
        in_tsb = 5, in_age = 45, in_activityCount = 15, in_trainingIntervals = None\<rparr>)
     = [0, 0, 0]
   \<and> map re_predictedTime
     (estimate \<lparr>in_bestVmax60d = 1000000, in_avgVmax = 0, in_nfi = 1, in_nfiStatus = Green,
        in_tsb = 0, in_age = 30, in_activityCount = 15, in_trainingIntervals = None\<rparr>)
     = [0.15, 0.15, 0.15]"
proof -
  have "map re_predictedTime
     (estimate \<lparr>in_bestVmax60d = 0, in_avgVmax = 0, in_nfi = 1, in_nfiStatus = Green,
        in_tsb = 5, in_age = 45, in_activityCount = 15, in_trainingIntervals = None\<rparr>)
     = [0, 0, 0]"
    by (simp add: estimate_def estimateDistance_def)
  moreover have "map re_predictedTime
     (estimate \<lparr>in_bestVmax60d = 1000000, in_avgVmax = 0, in_nfi = 1, in_nfiStatus = Green,
        in_tsb = 0, in_age = 30, in_activityCount = 15, in_trainingIntervals = None\<rparr>)
     = [0.15, 0.15, 0.15]"
    by (simp add: estimator_defs toFixedNum_def toFixedInt_def)
  ultimately show ?thesis by simp
qed

theorem predicted_times_increase_witness:
  "1 / 1000 \<le> max (in_bestVmax60d \<lparr>in_bestVmax60d = 10, in_avgVmax = 9.8, in_nfi = 1,
        in_nfiStatus = Green, in_tsb = 5, in_age = 45, in_activityCount = 15,
        in_trainingIntervals = Some [\<lparr>ti_type = Acceleration, ti_distance = 36, ti_vMax = 9.2,
          ti_duration = 6, ti_flyingVelocity = 8.57\<rparr>]\<rparr>)
      (in_avgVmax \<lparr>in_bestVmax60d = 10, in_avgVmax = 9.8, in_nfi = 1,
        in_nfiStatus = Green, in_tsb = 5, in_age = 45, in_activityCount = 15,
        in_trainingIntervals = Some [\<lparr>ti_type = Acceleration, ti_distance = 36, ti_vMax = 9.2,
          ti_duration = 6, ti_flyingVelocity = 8.57\<rparr>]\<rparr>)
   \<and> max (in_bestVmax60d \<lparr>in_bestVmax60d = 10, in_avgVmax = 9.8, in_nfi = 1,
        in_nfiStatus = Green, in_tsb = 5, in_age = 45, in_activityCount = 15,
        in_trainingIntervals = Some [\<lparr>ti_type = Acceleration, ti_distance = 36, ti_vMax = 9.2,
          ti_duration = 6, ti_flyingVelocity = 8.57\<rparr>]\<rparr>)
      (in_avgVmax \<lparr>in_bestVmax60d = 10, in_avgVmax = 9.8, in_nfi = 1,
        in_nfiStatus = Green, in_tsb = 5, in_age = 45, in_activityCount = 15,
        in_trainingIntervals = Some [\<lparr>ti_type = Acceleration, ti_distance = 36, ti_vMax = 9.2,
          ti_duration = 6, ti_flyingVelocity = 8.57\<rparr>]\<rparr>) \<le> 10000
   \<and> map re_predictedTime
      (estimate \<lparr>in_bestVmax60d = 10, in_avgVmax = 9.8, in_nfi = 1,
        in_nfiStatus = Green, in_tsb = 5, in_age = 45, in_activityCount = 15,
        in_trainingIntervals = Some [\<lparr>ti_type = Acceleration, ti_distance = 36, ti_vMax = 9.2,
          ti_duration = 6, ti_flyingVelocity = 8.57\<rparr>]\<rparr>) = [13.08, 26.88, 60.47]
   \<and> (13.08 :: real) < 26.88 \<and> (26.88 :: real) < 60.47 \<and> (60.47 :: real) \<le> 2314000"
proof -
  let ?inp = "\<lparr>in_bestVmax60d = 10, in_avgVmax = 9.8, in_nfi = 1,
        in_nfiStatus = Green, in_tsb = 5, in_age = 45, in_activityCount = 15,
        in_trainingIntervals = Some [\<lparr>ti_type = Acceleration, ti_distance = 36, ti_vMax = 9.2,
          ti_duration = 6, ti_flyingVelocity = 8.57\<rparr>]\<rparr>"
  have l: "1 / 1000 \<le> max (in_bestVmax60d ?inp) (in_avgVmax ?inp)" by simp
  have h: "max (in_bestVmax60d ?inp) (in_avgVmax ?inp) \<le> 10000" by simp
  have v: "map re_predictedTime (estimate ?inp) = [13.08, 26.88, 60.47]"
    by (simp add: estimator_defs buildTrainingProfile_def Math_max_def toFixedNum_def toFixedInt_def)
  from predicted_times_increase [OF l h] v l h show ?thesis by simp
qed

end
